theory Spec2Isabelle
  imports Complex_Main
begin

section \<open>TIN geometry: data model\<close>

text \<open>
  The two scripts of the repository (\<^verbatim>\<open>func.py\<close>: geometry extraction and the
  area-weighted centroid; \<^verbatim>\<open>XML_scale.py\<close>: the coordinate scaler) are embedded as
  HOL functions. Python floats are idealised as exact reals: IEEE-754 rounding,
  overflow and the non-finite values \<^verbatim>\<open>inf\<close> and \<^verbatim>\<open>nan\<close> are outside the model.
  Python integers are \<^typ>\<open>int\<close>, strings are \<^typ>\<open>string\<close> (ASCII text).
\<close>

text \<open>A NumPy array of three floats, as \<^verbatim>\<open>np.array(point_list)\<close> builds it.\<close>

type_synonym vec3 = "real \<times> real \<times> real"

text \<open>The dictionary \<^verbatim>\<open>points\<close> and one entry of the list \<^verbatim>\<open>faces\<close>.\<close>

type_synonym points = "int \<rightharpoonup> vec3"
type_synonym face = "int list"

text \<open>
  Built-in exceptions that the scripts let escape or catch, and the errors the scripts
  raise themselves. \<open>ErrorReadingXML\<close> is \<^verbatim>\<open>ValueError("Error reading XML file: ...")\<close>,
  \<open>InvalidPointEntry\<close> is \<^verbatim>\<open>ValueError("Invalid point entry: {point_tag}. Error: {e}")\<close>,
  \<open>NonExistentPointIDs\<close> is
  \<^verbatim>\<open>ValueError("Face references non-existent point IDs: {face}")\<close>, and \<open>Uncaught\<close> is a
  built-in exception that no handler of the scripts catches.
\<close>

datatype exn = KeyError string | ValueError string | IndexError

record element =
  tag :: string
  attrs :: "(string \<times> string) list"
  contents :: "string list"

datatype error =
    ErrorReadingXML
  | InvalidPointEntry element exn
  | NonExistentPointIDs face
  | Uncaught exn

section \<open>Vector arithmetic of NumPy on arrays of length three\<close>

fun vadd :: "vec3 \<Rightarrow> vec3 \<Rightarrow> vec3" where
  "vadd (a1, a2, a3) (b1, b2, b3) = (a1 + b1, a2 + b2, a3 + b3)"

fun vsub :: "vec3 \<Rightarrow> vec3 \<Rightarrow> vec3" where
  "vsub (a1, a2, a3) (b1, b2, b3) = (a1 - b1, a2 - b2, a3 - b3)"

fun smul :: "real \<Rightarrow> vec3 \<Rightarrow> vec3" where
  "smul k (a1, a2, a3) = (k * a1, k * a2, k * a3)"

fun sdiv :: "vec3 \<Rightarrow> real \<Rightarrow> vec3" where
  "sdiv (a1, a2, a3) k = (a1 / k, a2 / k, a3 / k)"

text \<open>\<^verbatim>\<open>np.cross\<close> on two arrays of length three.\<close>

fun cross :: "vec3 \<Rightarrow> vec3 \<Rightarrow> vec3" where
  "cross (a1, a2, a3) (b1, b2, b3) =
     (a2 * b3 - a3 * b2, a3 * b1 - a1 * b3, a1 * b2 - a2 * b1)"

text \<open>\<^verbatim>\<open>np.linalg.norm\<close> on a one-dimensional array: the square root of \<open>x.dot(x)\<close>.\<close>

fun dot :: "vec3 \<Rightarrow> vec3 \<Rightarrow> real" where
  "dot (a1, a2, a3) (b1, b2, b3) = a1 * b1 + a2 * b2 + a3 * b3"

definition linalg_norm :: "vec3 \<Rightarrow> real" where
  "linalg_norm v = sqrt (dot v v)"

definition zeros3 :: vec3 where
  "zeros3 = (0, 0, 0)"

section \<open>func.py: triangle area and area-weighted centroid\<close>

definition compute_triangle_area :: "vec3 \<Rightarrow> vec3 \<Rightarrow> vec3 \<Rightarrow> real" where
  "compute_triangle_area v1 v2 v3 = 0.5 * linalg_norm (cross (vsub v2 v1) (vsub v3 v1))"

text \<open>
  \<^verbatim>\<open>v1, v2, v3 = points[face[0]], points[face[1]], points[face[2]]\<close> inside
  \<^verbatim>\<open>try ... except KeyError\<close>: the three subscripts are evaluated left to right, a missing
  key is turned into the script's own error, and a face with fewer than three entries
  raises \<^verbatim>\<open>IndexError\<close>, which the handler does not catch.
\<close>

definition lookup_vertex :: "points \<Rightarrow> face \<Rightarrow> nat \<Rightarrow> error + vec3" where
  "lookup_vertex pts f i =
     (if length f \<le> i then Inl (Uncaught IndexError)
      else case pts (f ! i) of
             None \<Rightarrow> Inl (NonExistentPointIDs f)
           | Some v \<Rightarrow> Inr v)"

definition resolve_face :: "points \<Rightarrow> face \<Rightarrow> error + (vec3 \<times> vec3 \<times> vec3)" where
  "resolve_face pts f =
     (case lookup_vertex pts f 0 of
        Inl e \<Rightarrow> Inl e
      | Inr v1 \<Rightarrow>
          (case lookup_vertex pts f 1 of
             Inl e \<Rightarrow> Inl e
           | Inr v2 \<Rightarrow>
               (case lookup_vertex pts f 2 of
                  Inl e \<Rightarrow> Inl e
                | Inr v3 \<Rightarrow> Inr (v1, v2, v3))))"

text \<open>
  The body of \<^verbatim>\<open>for face in faces\<close>, with the two accumulators
  \<^verbatim>\<open>total_weighted_centroid\<close> and \<^verbatim>\<open>total_area\<close> passed as the state.
\<close>

fun centroid_loop :: "points \<Rightarrow> face list \<Rightarrow> vec3 \<times> real \<Rightarrow> error + (vec3 \<times> real)" where
  "centroid_loop pts [] acc = Inr acc"
| "centroid_loop pts (f # fs) (total_weighted_centroid, total_area) =
     (case resolve_face pts f of
        Inl e \<Rightarrow> Inl e
      | Inr (v1, v2, v3) \<Rightarrow>
          (let area = compute_triangle_area v1 v2 v3;
               centroid = sdiv (vadd (vadd v1 v2) v3) 3.0
           in centroid_loop pts fs
                (vadd total_weighted_centroid (smul area centroid), total_area + area)))"

text \<open>The result \<open>None\<close> is Python's \<^verbatim>\<open>None\<close>, returned when the total area is not positive.\<close>

definition compute_weighted_centroid :: "points \<Rightarrow> face list \<Rightarrow> error + vec3 option" where
  "compute_weighted_centroid pts faces =
     (case centroid_loop pts faces (zeros3, 0) of
        Inl e \<Rightarrow> Inl e
      | Inr (total_weighted_centroid, total_area) \<Rightarrow>
          Inr (if total_area > 0 then Some (sdiv total_weighted_centroid total_area)
               else None))"

text \<open>
  Reference notions for the statements about the centroid: the vertices a face names,
  its area and its unweighted vertex average, and when a face is fully or not fully
  present in the point mapping.
\<close>

definition vertex :: "points \<Rightarrow> face \<Rightarrow> nat \<Rightarrow> vec3" where
  "vertex pts f i = the (pts (f ! i))"

definition face_area :: "points \<Rightarrow> face \<Rightarrow> real" where
  "face_area pts f =
     compute_triangle_area (vertex pts f 0) (vertex pts f 1) (vertex pts f 2)"

definition face_centroid :: "points \<Rightarrow> face \<Rightarrow> vec3" where
  "face_centroid pts f =
     sdiv (vadd (vadd (vertex pts f 0) (vertex pts f 1)) (vertex pts f 2)) 3"

definition known_face :: "points \<Rightarrow> face \<Rightarrow> bool" where
  "known_face pts f = (length f = 3 \<and> list_all (\<lambda>k. pts k \<noteq> None) f)"

definition dangling :: "points \<Rightarrow> face \<Rightarrow> bool" where
  "dangling pts f = list_ex (\<lambda>k. pts k = None) f"

text \<open>The unit square of the spec's centroid test, as a point mapping.\<close>

definition unit_square :: points where
  "unit_square = [1 \<mapsto> (0, 0, 0), 2 \<mapsto> (1, 0, 0), 3 \<mapsto> (1, 1, 0), 4 \<mapsto> (0, 1, 0)]"

section \<open>Python built-ins used by the two scripts\<close>

text \<open>
  \<^verbatim>\<open>int(x)\<close>, \<^verbatim>\<open>float(x)\<close> and \<^verbatim>\<open>str\<close> of a float are built-ins of Python, not code of
  the repository: the scripts are embedded relative to them. \<open>None\<close> stands for the
  \<^verbatim>\<open>ValueError\<close> the conversion raises.
\<close>

record builtins =
  py_int :: "string \<Rightarrow> int option"
  py_float :: "string \<Rightarrow> real option"
  py_str_float :: "real \<Rightarrow> string"

text \<open>A conversion inside a list comprehension: the rejected literal is raised.\<close>

definition convert :: "(string \<Rightarrow> 'a option) \<Rightarrow> string \<Rightarrow> exn + 'a" where
  "convert p x = (case p x of None \<Rightarrow> Inl (ValueError x) | Some v \<Rightarrow> Inr v)"

text \<open>
  A list comprehension or a \<^verbatim>\<open>for\<close> loop whose body may raise: the elements are
  processed from left to right and the first exception ends the loop.
\<close>

fun map_exn :: "('a \<Rightarrow> exn + 'b) \<Rightarrow> 'a list \<Rightarrow> exn + 'b list" where
  "map_exn f [] = Inr []"
| "map_exn f (x # xs) =
     (case f x of
        Inl e \<Rightarrow> Inl e
      | Inr y \<Rightarrow> (case map_exn f xs of Inl e \<Rightarrow> Inl e | Inr ys \<Rightarrow> Inr (y # ys)))"

text \<open>\<^verbatim>\<open>str.isspace\<close> on ASCII characters, the separators of \<^verbatim>\<open>str.split()\<close>.\<close>

definition isspace :: "char \<Rightarrow> bool" where
  "isspace c = (c \<in> set [CHR 0x09, CHR 0x0A, CHR 0x0B, CHR 0x0C, CHR 0x0D,
                          CHR 0x1C, CHR 0x1D, CHR 0x1E, CHR 0x1F, CHR '' ''])"

text \<open>\<^verbatim>\<open>s.split()\<close>: runs of whitespace separate the tokens, no token is empty.\<close>

fun split_ws_from :: "string \<Rightarrow> string \<Rightarrow> string list" where
  "split_ws_from cur [] = (if cur = [] then [] else [cur])"
| "split_ws_from cur (c # cs) =
     (if isspace c then (if cur = [] then split_ws_from [] cs else cur # split_ws_from [] cs)
      else split_ws_from (cur @ [c]) cs)"

definition split_ws :: "string \<Rightarrow> string list" where
  "split_ws s = split_ws_from [] s"

text \<open>
  \<^verbatim>\<open>s.split(" ")\<close>: every single occurrence of the separator ends a piece, so adjacent,
  leading and trailing separators give empty pieces, and the result is never empty.
\<close>

fun split_sep_from :: "char \<Rightarrow> string \<Rightarrow> string \<Rightarrow> string list" where
  "split_sep_from sep cur [] = [cur]"
| "split_sep_from sep cur (c # cs) =
     (if c = sep then cur # split_sep_from sep [] cs else split_sep_from sep (cur @ [c]) cs)"

definition split_sep :: "char \<Rightarrow> string \<Rightarrow> string list" where
  "split_sep sep s = split_sep_from sep [] s"

text \<open>\<^verbatim>\<open>sep.join(xs)\<close>.\<close>

fun join :: "string \<Rightarrow> string list \<Rightarrow> string" where
  "join sep [] = []"
| "join sep [x] = x"
| "join sep (x # y # ys) = x @ sep @ join sep (y # ys)"

text \<open>\<^verbatim>\<open>str\<close> of an integer.\<close>

definition digit_char :: "nat \<Rightarrow> char" where
  "digit_char n = ''0123456789'' ! n"

function str_nat :: "nat \<Rightarrow> string" where
  "str_nat n = (if n < 10 then [digit_char n] else str_nat (n div 10) @ [digit_char (n mod 10)])"
  by pat_completeness auto
termination
  by (relation "measure id") auto

declare str_nat.simps [simp del]

definition str_int :: "int \<Rightarrow> string" where
  "str_int i = (if i < 0 then ''-'' @ str_nat (nat (- i)) else str_nat (nat i))"

text \<open>
  \<^verbatim>\<open>"{:.pf}".format(r)\<close> for a finite value: the value is rounded to \<open>p\<close> decimals, ties
  to the even neighbour, and written in fixed notation with a sign for negative values.
\<close>

definition round_half_even :: "real \<Rightarrow> int" where
  "round_half_even r =
     (let f = \<lfloor>r\<rfloor>; d = r - of_int f
      in if d < 1/2 then f else if 1/2 < d then f + 1 else if even f then f else f + 1)"

definition format_f :: "nat \<Rightarrow> real \<Rightarrow> string" where
  "format_f p r =
     (let q = nat (round_half_even (\<bar>r\<bar> * 10 ^ p));
          frac = str_nat (q mod 10 ^ p)
      in (if r < 0 then ''-'' else []) @ str_nat (q div 10 ^ p) @
         (if p = 0 then [] else ''.'' @ replicate (p - length frac) (CHR ''0'') @ frac))"

section \<open>The parsed document\<close>

text \<open>
  BeautifulSoup is an external library. Of the tree it builds the scripts use the
  elements found by \<^verbatim>\<open>find_all(name)\<close> in document order, their attributes and their
  text children; an element is modelled with exactly that, and a document is the list
  of its elements in document order.
\<close>

type_synonym document = "element list"

definition find_all :: "string \<Rightarrow> document \<Rightarrow> element list" where
  "find_all name xml_soup = filter (\<lambda>e. tag e = name) xml_soup"

text \<open>\<^verbatim>\<open>element.text\<close>: the text children, concatenated.\<close>

definition get_text :: "element \<Rightarrow> string" where
  "get_text e = concat (contents e)"

section \<open>func.py: the geometry extractor\<close>

text \<open>
  The loop over \<^verbatim>\<open>find_all('F')\<close>, with the list \<^verbatim>\<open>faces\<close> as the state. The conversion
  \<^verbatim>\<open>int(x)\<close> is outside any \<^verbatim>\<open>try\<close>, so its \<^verbatim>\<open>ValueError\<close> escapes as it is.
\<close>

fun faces_loop :: "builtins \<Rightarrow> element list \<Rightarrow> face list \<Rightarrow> error + face list" where
  "faces_loop b [] faces = Inr faces"
| "faces_loop b (face # rest) faces =
     (case map_exn (convert (py_int b)) (split_ws (get_text face)) of
        Inl e \<Rightarrow> Inl (Uncaught e)
      | Inr face_list \<Rightarrow>
          faces_loop b rest (if length face_list = 3 then faces @ [face_list] else faces))"

text \<open>
  The two statements of the \<^verbatim>\<open>try\<close> block that can raise: \<^verbatim>\<open>int(point_tag["id"])\<close>
  (\<^verbatim>\<open>KeyError\<close> without the attribute, \<^verbatim>\<open>ValueError\<close> from \<^verbatim>\<open>int\<close>) and the list of floats.
\<close>

definition point_entry :: "builtins \<Rightarrow> element \<Rightarrow> exn + (int \<times> real list)" where
  "point_entry b point_tag =
     (case map_of (attrs point_tag) ''id'' of
        None \<Rightarrow> Inl (KeyError ''id'')
      | Some a \<Rightarrow>
          (case convert (py_int b) a of
             Inl e \<Rightarrow> Inl e
           | Inr pid \<Rightarrow>
               (case map_exn (convert (py_float b)) (split_ws (get_text point_tag)) of
                  Inl e \<Rightarrow> Inl e
                | Inr point_list \<Rightarrow> Inr (pid, point_list))))"

text \<open>
  The loop over \<^verbatim>\<open>find_all('P')\<close>, with the dictionary \<^verbatim>\<open>points\<close> as the state: both
  exceptions are caught and raised again as the script's error for the element; a list
  of floats whose length is not 3 stores nothing.
\<close>

fun points_loop :: "builtins \<Rightarrow> element list \<Rightarrow> points \<Rightarrow> error + points" where
  "points_loop b [] points = Inr points"
| "points_loop b (point_tag # rest) points =
     (case point_entry b point_tag of
        Inl e \<Rightarrow> Inl (InvalidPointEntry point_tag e)
      | Inr (pid, point_list) \<Rightarrow>
          points_loop b rest
            (if length point_list = 3
             then points(pid \<mapsto> (point_list ! 0, point_list ! 1, point_list ! 2))
             else points))"

text \<open>
  The argument is the outcome of reading the file: \<open>None\<close> when \<^verbatim>\<open>open\<close> or the parser
  raised, the parsed document otherwise.
\<close>

definition parse_tin_geometry :: "builtins \<Rightarrow> document option \<Rightarrow> error + (points \<times> face list)" where
  "parse_tin_geometry b xml_file =
     (case xml_file of
        None \<Rightarrow> Inl ErrorReadingXML
      | Some xml_soup \<Rightarrow>
          (case faces_loop b (find_all ''F'' xml_soup) [] of
             Inl e \<Rightarrow> Inl e
           | Inr faces \<Rightarrow>
               (case points_loop b (find_all ''P'' xml_soup) Map.empty of
                  Inl e \<Rightarrow> Inl e
                | Inr points \<Rightarrow> Inr (points, faces))))"

section \<open>XML_scale.py: the coordinate scaler\<close>

text \<open>The body of the loop over the text children of an \<^verbatim>\<open>F\<close> element.\<close>

definition scale_face :: "builtins \<Rightarrow> string \<Rightarrow> exn + string" where
  "scale_face b face =
     (case map_exn (convert (py_int b)) (split_sep (CHR '' '') face) of
        Inl e \<Rightarrow> Inl e
      | Inr face_list \<Rightarrow> Inr (join '' '' (map str_int face_list)))"

text \<open>
  The body of the loop over the text children of a \<^verbatim>\<open>P\<close> element. The assignments to
  \<^verbatim>\<open>point_list[0]\<close>, \<^verbatim>\<open>point_list[1]\<close> and \<^verbatim>\<open>point_list[2]\<close> run in this order and the
  first index that is out of range raises \<^verbatim>\<open>IndexError\<close>; entries after the third stay
  floats and are written with \<^verbatim>\<open>str\<close>.
\<close>

definition scale_point :: "builtins \<Rightarrow> real \<Rightarrow> string \<Rightarrow> exn + string" where
  "scale_point b scale_factor point =
     (case map_exn (convert (py_float b)) (split_sep (CHR '' '') point) of
        Inl e \<Rightarrow> Inl e
      | Inr point_list \<Rightarrow>
          if length point_list < 3 then Inl IndexError
          else Inr (join '' ''
                 ([format_f 12 (point_list ! 0 * scale_factor),
                   format_f 12 (point_list ! 1 * scale_factor),
                   format_f 4 (point_list ! 2)]
                  @ map (py_str_float b) (drop 3 point_list))))"

text \<open>
  One pass \<^verbatim>\<open>for elem in xml_soup.find_all(name): for child in elem: ...\<close> that replaces
  each text child by its rewritten text; other elements are left as they are.
\<close>

definition rewrite_element :: "string \<Rightarrow> (string \<Rightarrow> exn + string) \<Rightarrow> element \<Rightarrow> exn + element" where
  "rewrite_element name f e =
     (if tag e = name
      then (case map_exn f (contents e) of
              Inl x \<Rightarrow> Inl x
            | Inr cs \<Rightarrow> Inr (e\<lparr>contents := cs\<rparr>))
      else Inr e)"

text \<open>
  \<^verbatim>\<open>main\<close>, from the parsed document to the tree that is written out: the pass over
  the faces, then the pass over the points. No exception is caught.
\<close>

definition main :: "builtins \<Rightarrow> real \<Rightarrow> document \<Rightarrow> error + document" where
  "main b scale_factor xml_soup =
     (case map_exn (rewrite_element ''F'' (scale_face b)) xml_soup of
        Inl x \<Rightarrow> Inl (Uncaught x)
      | Inr soup1 \<Rightarrow>
          (case map_exn (rewrite_element ''P'' (scale_point b scale_factor)) soup1 of
             Inl x \<Rightarrow> Inl (Uncaught x)
           | Inr soup2 \<Rightarrow> Inr soup2))"

section \<open>Reference notions for the extractor, and example data\<close>

text \<open>
  An instance of the built-ins for concrete documents: the conversions restricted to
  plain decimal literals, that is an optional minus sign and digits, with an optional
  point followed by digits for a float. On these literals \<open>dec_int\<close> and \<open>dec_float\<close>
  return what \<^verbatim>\<open>int\<close> and \<^verbatim>\<open>float\<close> return (up to the rounding of the float), and they
  reject the empty string and words without digits as Python does; Python accepts
  further literals (surrounding whitespace, a plus sign, underscores, exponents) that
  the examples do not use. \<open>str\<close> of a float is instantiated with one decimal, as
  Python writes \<^verbatim>\<open>2.5\<close> or \<^verbatim>\<open>4.0\<close>; no example reaches it.
\<close>

definition digit_of :: "char \<Rightarrow> nat option" where
  "digit_of c = map_of (zip ''0123456789'' [0, 1, 2, 3, 4, 5, 6, 7, 8, 9]) c"

fun digits_value :: "nat \<Rightarrow> string \<Rightarrow> nat option" where
  "digits_value acc [] = Some acc"
| "digits_value acc (c # cs) =
     (case digit_of c of None \<Rightarrow> None | Some d \<Rightarrow> digits_value (10 * acc + d) cs)"

definition dec_nat :: "string \<Rightarrow> nat option" where
  "dec_nat s = (if s = [] then None else digits_value 0 s)"

definition dec_int :: "string \<Rightarrow> int option" where
  "dec_int s =
     (case s of
        [] \<Rightarrow> None
      | c # cs \<Rightarrow>
          if c = CHR ''-'' then map_option (\<lambda>n. - int n) (dec_nat cs)
          else map_option int (dec_nat s))"

definition dec_float :: "string \<Rightarrow> real option" where
  "dec_float s =
     (let neg = (s \<noteq> [] \<and> hd s = CHR ''-'');
          t = (if neg then tl s else s);
          ip = takeWhile (\<lambda>c. c \<noteq> CHR ''.'') t;
          fp = drop 1 (dropWhile (\<lambda>c. c \<noteq> CHR ''.'') t)
      in case (dec_nat ip, if ip = t then Some 0 else dec_nat fp) of
           (Some i, Some f) \<Rightarrow>
             Some ((if neg then - 1 else 1) * (of_nat i + of_nat f / 10 ^ length fp))
         | _ \<Rightarrow> None)"

definition decimal :: builtins where
  "decimal = \<lparr>py_int = dec_int, py_float = dec_float, py_str_float = format_f 1\<rparr>"

text \<open>
  Reference notions for the statements about the extractor: an element whose tokens
  \<^verbatim>\<open>int\<close> accepts and the face they denote; a \<^verbatim>\<open>P\<close> element for which the \<^verbatim>\<open>try\<close> block
  raises; the entry a \<^verbatim>\<open>P\<close> element stores, if any; and the extractor followed by the
  centroid calculator, the second pipeline of the spec.
\<close>

definition int_tokens_ok :: "builtins \<Rightarrow> element \<Rightarrow> bool" where
  "int_tokens_ok b e = list_all (\<lambda>t. py_int b t \<noteq> None) (split_ws (get_text e))"

definition face_ints :: "builtins \<Rightarrow> element \<Rightarrow> face" where
  "face_ints b e = map (\<lambda>t. the (py_int b t)) (split_ws (get_text e))"

definition bad_point :: "builtins \<Rightarrow> element \<Rightarrow> bool" where
  "bad_point b e =
     (case map_of (attrs e) ''id'' of
        None \<Rightarrow> True
      | Some a \<Rightarrow>
          py_int b a = None \<or> list_ex (\<lambda>t. py_float b t = None) (split_ws (get_text e)))"

definition stored_point :: "builtins \<Rightarrow> element \<Rightarrow> (int \<times> vec3) option" where
  "stored_point b e =
     (case point_entry b e of
        Inl x \<Rightarrow> None
      | Inr (pid, point_list) \<Rightarrow>
          if length point_list = 3
          then Some (pid, (point_list ! 0, point_list ! 1, point_list ! 2))
          else None)"

definition centroid_of_document :: "builtins \<Rightarrow> document option \<Rightarrow> error + vec3 option" where
  "centroid_of_document b xml_file =
     (case parse_tin_geometry b xml_file of
        Inl e \<Rightarrow> Inl e
      | Inr (points, faces) \<Rightarrow> compute_weighted_centroid points faces)"

text \<open>Elements of example documents: \<^verbatim>\<open><F>t</F>\<close>, \<^verbatim>\<open><P id="i">t</P>\<close> and \<^verbatim>\<open><P>t</P>\<close>.\<close>

definition face_elem :: "string \<Rightarrow> element" where
  "face_elem t = \<lparr>tag = ''F'', attrs = [], contents = [t]\<rparr>"

definition point_elem :: "string \<Rightarrow> string \<Rightarrow> element" where
  "point_elem i t = \<lparr>tag = ''P'', attrs = [(''id'', i)], contents = [t]\<rparr>"

definition point_elem_no_id :: "string \<Rightarrow> element" where
  "point_elem_no_id t = \<lparr>tag = ''P'', attrs = [], contents = [t]\<rparr>"

section \<open>Reference notions for the scaler\<close>

text \<open>
  A text child the scaler can rewrite: cut at every single space, all pieces are
  accepted by the conversion, and for a point there are at least three of them.
\<close>

definition face_text_ok :: "builtins \<Rightarrow> string \<Rightarrow> bool" where
  "face_text_ok b t = list_all (\<lambda>x. py_int b x \<noteq> None) (split_sep (CHR '' '') t)"

definition point_text_ok :: "builtins \<Rightarrow> string \<Rightarrow> bool" where
  "point_text_ok b t =
     (list_all (\<lambda>x. py_float b x \<noteq> None) (split_sep (CHR '' '') t)
      \<and> 3 \<le> length (split_sep (CHR '' '') t))"

definition element_ok :: "builtins \<Rightarrow> element \<Rightarrow> bool" where
  "element_ok b e =
     (if tag e = ''F'' then list_all (face_text_ok b) (contents e)
      else if tag e = ''P'' then list_all (point_text_ok b) (contents e)
      else True)"

text \<open>The text the scaler writes for a text child it can rewrite, and the rewritten element.\<close>

definition face_text :: "builtins \<Rightarrow> string \<Rightarrow> string" where
  "face_text b t = join '' '' (map (\<lambda>x. str_int (the (py_int b x))) (split_sep (CHR '' '') t))"

definition point_text :: "builtins \<Rightarrow> real \<Rightarrow> string \<Rightarrow> string" where
  "point_text b k t =
     (let pl = map (\<lambda>x. the (py_float b x)) (split_sep (CHR '' '') t)
      in join '' ''
           ([format_f 12 (pl ! 0 * k), format_f 12 (pl ! 1 * k), format_f 4 (pl ! 2)]
            @ map (py_str_float b) (drop 3 pl)))"

definition rewritten :: "builtins \<Rightarrow> real \<Rightarrow> element \<Rightarrow> element" where
  "rewritten b k e =
     (if tag e = ''F'' then e\<lparr>contents := map (face_text b) (contents e)\<rparr>
      else if tag e = ''P'' then e\<lparr>contents := map (point_text b k) (contents e)\<rparr>
      else e)"



text \<open>An element after the first pass of the scaler, over the faces.\<close>

definition faces_rewritten :: "builtins \<Rightarrow> element \<Rightarrow> element" where
  "faces_rewritten b e =
     (if tag e = ''F'' then e\<lparr>contents := map (face_text b) (contents e)\<rparr> else e)"

section \<open>Evaluation rules for concrete inputs\<close>

text \<open>
  \<open>str_nat\<close> is unfolded on numerals only, so that the simplifier evaluates it on a
  concrete number and leaves it alone elsewhere.
\<close>

lemma str_nat_numeral:
  "str_nat (numeral k) =
     (if (numeral k :: nat) < 10 then [digit_char (numeral k)]
      else str_nat (numeral k div 10) @ [digit_char (numeral k mod 10)])"
  by (rule str_nat.simps)

lemma str_nat_0: "str_nat 0 = ''0''"
  by (simp add: str_nat.simps digit_char_def)

lemma str_nat_1: "str_nat (Suc 0) = ''1''"
  by (simp add: str_nat.simps digit_char_def)

lemma replicate_numeral: "replicate (numeral k) x = x # replicate (pred_numeral k) x"
  by (simp add: numeral_eq_Suc)

lemmas format_eval =
  format_f_def round_half_even_def Let_def str_nat_numeral str_nat_0 str_nat_1 digit_char_def
  replicate_numeral

lemmas eval_defs =
  face_elem_def point_elem_def point_elem_no_id_def decimal_def dec_int_def dec_float_def
  dec_nat_def digit_of_def split_ws_def split_sep_def isspace_def get_text_def find_all_def
  int_tokens_ok_def bad_point_def stored_point_def point_entry_def convert_def face_ints_def
  parse_tin_geometry_def

lemmas scaler_eval =
  element_ok_def face_text_ok_def point_text_ok_def main_def rewrite_element_def
  scale_face_def scale_point_def str_int_def rewritten_def face_text_def point_text_def

section \<open>Properties of the centroid calculator\<close>

lemma resolve_known:
  assumes "known_face pts f"
  shows "resolve_face pts f = Inr (vertex pts f 0, vertex pts f 1, vertex pts f 2)"
proof -
  from assms obtain a b c where f: "f = [a, b, c]"
    by (auto simp: known_face_def length_Suc_conv numeral_3_eq_3)
  with assms show ?thesis
    by (auto simp: known_face_def resolve_face_def lookup_vertex_def vertex_def)
qed

lemma resolve_dangling:
  assumes "length f = 3" "dangling pts f"
  shows "resolve_face pts f = Inl (NonExistentPointIDs f)"
proof -
  from assms obtain a b c where f: "f = [a, b, c]"
    by (auto simp: length_Suc_conv numeral_3_eq_3)
  with assms show ?thesis
    by (auto simp: dangling_def resolve_face_def lookup_vertex_def split: option.splits)
qed

lemma known_or_dangling: "length f = 3 \<Longrightarrow> known_face pts f \<longleftrightarrow> \<not> dangling pts f"
  by (auto simp: known_face_def dangling_def list_all_iff list_ex_iff)

text \<open>
  When every face is present in the mapping the loop ends normally, and its two
  accumulators are the left-to-right sums of the weighted centroids and of the areas.
\<close>

lemma centroid_loop_known:
  assumes "\<forall>f\<in>set faces. known_face pts f"
  shows "centroid_loop pts faces (W, A) =
           Inr (foldl vadd W (map (\<lambda>f. smul (face_area pts f) (face_centroid pts f)) faces),
                foldl (+) A (map (face_area pts) faces))"
  using assms
proof (induction faces arbitrary: W A)
  case Nil
  then show ?case by simp
next
  case (Cons f fs)
  then have k: "known_face pts f" and rest: "\<forall>g\<in>set fs. known_face pts g" by simp_all
  show ?case
    by (simp add: resolve_known [OF k] Cons.IH [OF rest] face_area_def face_centroid_def Let_def)
qed

text \<open>The loop stops at the first face that names an absent point.\<close>

lemma centroid_loop_dangling:
  assumes "\<forall>f\<in>set faces. length f = 3" "find (dangling pts) faces = Some f"
  shows "centroid_loop pts faces acc = Inl (NonExistentPointIDs f)"
  using assms
proof (induction faces arbitrary: acc)
  case Nil
  then show ?case by simp
next
  case (Cons g gs)
  obtain W A where acc: "acc = (W, A)" by (cases acc)
  from Cons.prems have len: "length g = 3" by simp
  show ?case
  proof (cases "dangling pts g")
    case True
    with Cons.prems have "f = g" by simp
    with True len show ?thesis by (simp add: acc resolve_dangling)
  next
    case False
    with len have k: "known_face pts g" by (simp add: known_or_dangling)
    from False Cons.prems have "find (dangling pts) gs = Some f" by simp
    with Cons.prems Cons.IH show ?thesis
      by (simp add: acc resolve_known [OF k] Let_def)
  qed
qed







text \<open>
  C1. When each face has three point IDs and all of them are keys of the point mapping,
  \<open>compute_weighted_centroid\<close> ends normally; the weighted sum and the total area are
  accumulated face by face in list order, each face contributing its area times the
  average of its three vertices, and when the total area is positive the result is
  the weighted sum divided by the total area, component by component.
\<close>

theorem weighted_centroid_accumulates:
  assumes "\<forall>f\<in>set faces. known_face pts f"
  shows "compute_weighted_centroid pts faces =
     Inr (let weighted_sum =
                foldl vadd zeros3 (map (\<lambda>f. smul (face_area pts f) (face_centroid pts f)) faces);
              total = foldl (+) 0 (map (face_area pts) faces)
          in if total > 0 then Some (sdiv weighted_sum total) else None)"
  by (simp add: compute_weighted_centroid_def centroid_loop_known [OF assms] Let_def)

theorem weighted_centroid_accumulates_witness:
  "list_all (known_face unit_square) [[1, 2, 3], [1, 3, 4]] \<and>
   compute_weighted_centroid unit_square [[1, 2, 3], [1, 3, 4]] = Inr (Some (1/2, 1/2, 0))"
  using weighted_centroid_accumulates [of "[[1, 2, 3], [1, 3, 4]]" unit_square]
  by (simp add: known_face_def unit_square_def face_area_def face_centroid_def vertex_def
      compute_triangle_area_def linalg_norm_def zeros3_def Let_def)




text \<open>
  C4. When every face has three point IDs and some face names an ID that is not a key
  of the point mapping, \<open>compute_weighted_centroid\<close> raises the script's error for
  non-existent point IDs, carrying the first such face in list order, and returns no
  centroid.
\<close>

theorem dangling_reference_raises:
  assumes "\<forall>f\<in>set faces. length f = 3"
    and "\<exists>f\<in>set faces. dangling pts f"
  shows "\<exists>f. find (dangling pts) faces = Some f \<and> f \<in> set faces \<and> dangling pts f \<and>
             compute_weighted_centroid pts faces = Inl (NonExistentPointIDs f)"
proof -
  from assms(2) obtain f where f: "find (dangling pts) faces = Some f"
    by (cases "find (dangling pts) faces") (auto simp: find_None_iff)
  then have "f \<in> set faces" "dangling pts f"
    by (auto simp: find_Some_iff)
  moreover have "compute_weighted_centroid pts faces = Inl (NonExistentPointIDs f)"
    by (simp add: compute_weighted_centroid_def centroid_loop_dangling [OF assms(1) f])
  ultimately show ?thesis using f by simp
qed

theorem dangling_reference_raises_witness:
  "list_all (\<lambda>f. length f = 3) [[1, 2, 3], [1, 7, 4], [9, 9, 9]]
   \<and> list_ex (dangling unit_square) [[1, 2, 3], [1, 7, 4], [9, 9, 9]]
   \<and> compute_weighted_centroid unit_square [[1, 2, 3], [1, 7, 4], [9, 9, 9]] =
       Inl (NonExistentPointIDs [1, 7, 4])"
  using dangling_reference_raises [of "[[1, 2, 3], [1, 7, 4], [9, 9, 9]]" unit_square]
  by (simp add: dangling_def unit_square_def)

section \<open>Properties of the geometry extractor\<close>

lemma map_exn_convert_ok:
  "list_all (\<lambda>t. p t \<noteq> None) ts \<Longrightarrow> map_exn (convert p) ts = Inr (map (\<lambda>t. the (p t)) ts)"
  by (induction ts) (auto simp: convert_def)

lemma map_exn_convert_bad:
  "find (\<lambda>t. p t = None) ts = Some t \<Longrightarrow> map_exn (convert p) ts = Inl (ValueError t)"
  by (induction ts) (auto simp: convert_def split: if_splits)

lemma map_exn_convert_cases:
  "map_exn (convert p) ts =
     (case find (\<lambda>t. p t = None) ts of
        None \<Rightarrow> Inr (map (\<lambda>t. the (p t)) ts)
      | Some t \<Rightarrow> Inl (ValueError t))"
  by (induction ts) (auto simp: convert_def split: option.splits)

lemma faces_loop_ok:
  "list_all (int_tokens_ok b) es \<Longrightarrow>
   faces_loop b es acc = Inr (acc @ filter (\<lambda>f. length f = 3) (map (face_ints b) es))"
proof (induction es arbitrary: acc)
  case Nil
  then show ?case by simp
next
  case (Cons e es)
  then have "list_all (\<lambda>t. py_int b t \<noteq> None) (split_ws (get_text e))"
    by (simp add: int_tokens_ok_def)
  then have "map_exn (convert (py_int b)) (split_ws (get_text e)) = Inr (face_ints b e)"
    by (simp add: map_exn_convert_ok face_ints_def)
  with Cons show ?case by simp
qed

lemma find_app:
  "find P (xs @ ys) = (case find P xs of None \<Rightarrow> find P ys | Some x \<Rightarrow> Some x)"
  by (induction xs) auto

lemma faces_loop_bad:
  "find (\<lambda>t. py_int b t = None) (concat (map (\<lambda>e. split_ws (get_text e)) es)) = Some t \<Longrightarrow>
   faces_loop b es acc = Inl (Uncaught (ValueError t))"
proof (induction es arbitrary: acc)
  case Nil
  then show ?case by simp
next
  case (Cons e es)
  show ?case
  proof (cases "find (\<lambda>t. py_int b t = None) (split_ws (get_text e))")
    case None
    then have ok: "list_all (\<lambda>t. py_int b t \<noteq> None) (split_ws (get_text e))"
      by (auto simp: find_None_iff list_all_iff)
    from None Cons.prems
    have "find (\<lambda>t. py_int b t = None) (concat (map (\<lambda>e. split_ws (get_text e)) es)) = Some t"
      by (simp add: find_app)
    then show ?thesis
      by (simp add: map_exn_convert_ok [OF ok] Cons.IH)
  next
    case (Some u)
    with Cons.prems have "u = t" by (simp add: find_app)
    with Some show ?thesis by (simp add: map_exn_convert_bad)
  qed
qed

lemma point_entry_bad:
  "bad_point b e \<Longrightarrow> \<exists>x. point_entry b e = Inl x"
  by (auto simp: bad_point_def point_entry_def convert_def map_exn_convert_cases list_ex_iff
      find_None_iff split: option.splits)

lemma point_entry_good:
  assumes "\<not> bad_point b e"
  shows "\<exists>pid pl. point_entry b e = Inr (pid, pl)"
proof -
  from assms obtain a where a: "map_of (attrs e) ''id'' = Some a"
    by (auto simp: bad_point_def split: option.splits)
  with assms obtain pid where pid: "py_int b a = Some pid"
    by (auto simp: bad_point_def)
  from assms a have "list_all (\<lambda>t. py_float b t \<noteq> None) (split_ws (get_text e))"
    by (auto simp: bad_point_def list_all_iff list_ex_iff)
  then show ?thesis
    by (simp add: point_entry_def a pid convert_def map_exn_convert_ok)
qed

lemma points_loop_bad:
  "find (bad_point b) es = Some e \<Longrightarrow> \<exists>x. points_loop b es m = Inl (InvalidPointEntry e x)"
proof (induction es arbitrary: m)
  case Nil
  then show ?case by simp
next
  case (Cons a es)
  show ?case
  proof (cases "bad_point b a")
    case True
    with Cons.prems have "a = e" by simp
    with point_entry_bad [OF True] show ?thesis by auto
  next
    case False
    with Cons.prems have "find (bad_point b) es = Some e" by simp
    with point_entry_good [OF False] Cons.IH show ?thesis by auto
  qed
qed

lemma points_loop_ok:
  "\<not> list_ex (bad_point b) es \<Longrightarrow>
   points_loop b es m = Inr (m ++ map_of (rev (List.map_filter (stored_point b) es)))"
proof (induction es arbitrary: m)
  case Nil
  then show ?case by (simp add: List.map_filter_simps)
next
  case (Cons a es)
  then have good: "\<not> bad_point b a" and rest: "\<not> list_ex (bad_point b) es" by simp_all
  from point_entry_good [OF good] obtain pid pl where pe: "point_entry b a = Inr (pid, pl)"
    by blast
  show ?case
  proof (cases "length pl = 3")
    case True
    then have sp: "stored_point b a = Some (pid, (pl ! 0, pl ! 1, pl ! 2))"
      by (simp add: stored_point_def pe)
    show ?thesis
      by (simp add: pe True sp Cons.IH [OF rest] List.map_filter_simps map_add_upd_left)
  next
    case False
    then have sp: "stored_point b a = None"
      by (simp add: stored_point_def pe)
    show ?thesis
      by (simp add: pe False sp Cons.IH [OF rest] List.map_filter_simps)
  qed
qed

lemma faces_loop_append:
  "faces_loop b (es1 @ es2) acc =
     (case faces_loop b es1 acc of Inl x \<Rightarrow> Inl x | Inr a \<Rightarrow> faces_loop b es2 a)"
  by (induction es1 arbitrary: acc) (auto split: sum.splits)

lemma faces_loop_Inr_ok:
  assumes "faces_loop b es acc = Inr fs"
  shows "list_all (int_tokens_ok b) es"
proof (rule ccontr)
  assume "\<not> list_all (int_tokens_ok b) es"
  then obtain e t where "e \<in> set es" "t \<in> set (split_ws (get_text e))" "py_int b t = None"
    by (auto simp: list_all_iff int_tokens_ok_def)
  then have "\<exists>t\<in>set (concat (map (\<lambda>e. split_ws (get_text e)) es)). py_int b t = None"
    by auto
  then obtain u where
    "find (\<lambda>t. py_int b t = None) (concat (map (\<lambda>e. split_ws (get_text e)) es)) = Some u"
    by (cases "find (\<lambda>t. py_int b t = None) (concat (map (\<lambda>e. split_ws (get_text e)) es))")
      (auto simp: find_None_iff)
  from faces_loop_bad [OF this] assms show False by simp
qed

text \<open>
  C5, as the code has it. Provided the file was read and every token of every \<^verbatim>\<open>F\<close>
  element is accepted by \<^verbatim>\<open>int\<close>, \<open>parse_tin_geometry\<close> raises the script's error for an
  invalid point entry exactly when some \<^verbatim>\<open>P\<close> element has no \<^verbatim>\<open>id\<close> attribute, an \<^verbatim>\<open>id\<close>
  that \<^verbatim>\<open>int\<close> rejects, or a whitespace-separated token that \<^verbatim>\<open>float\<close> rejects; the error
  carries the first such element, and without such an element the extraction succeeds.
  The number of tokens plays no part: a point whose tokens are all floats but are not
  three in number raises nothing.
\<close>

theorem invalid_point_entry_iff_bad_point:
  assumes "list_all (int_tokens_ok b) (find_all ''F'' doc)"
  shows "((\<exists>e x. parse_tin_geometry b (Some doc) = Inl (InvalidPointEntry e x))
            \<longleftrightarrow> list_ex (bad_point b) (find_all ''P'' doc))
       \<and> (\<forall>e. find (bad_point b) (find_all ''P'' doc) = Some e \<longrightarrow>
              (\<exists>x. parse_tin_geometry b (Some doc) = Inl (InvalidPointEntry e x)))
       \<and> (\<not> list_ex (bad_point b) (find_all ''P'' doc) \<longrightarrow>
              (\<exists>pts fs. parse_tin_geometry b (Some doc) = Inr (pts, fs)))"
proof -
  let ?fs = "filter (\<lambda>f. length f = 3) (map (face_ints b) (find_all ''F'' doc))"
  have fl: "faces_loop b (find_all ''F'' doc) [] = Inr ?fs"
    using faces_loop_ok [OF assms, of "[]"] by simp
  have bad: "\<exists>x. parse_tin_geometry b (Some doc) = Inl (InvalidPointEntry e x)"
    if "find (bad_point b) (find_all ''P'' doc) = Some e" for e
    using points_loop_bad [OF that, of Map.empty] by (auto simp: parse_tin_geometry_def fl)
  have good: "\<exists>pts fs. parse_tin_geometry b (Some doc) = Inr (pts, fs)"
    if "\<not> list_ex (bad_point b) (find_all ''P'' doc)"
    by (simp add: parse_tin_geometry_def fl points_loop_ok [OF that])
  have iff: "(\<exists>e x. parse_tin_geometry b (Some doc) = Inl (InvalidPointEntry e x))
            \<longleftrightarrow> list_ex (bad_point b) (find_all ''P'' doc)"
  proof
    assume raised: "\<exists>e x. parse_tin_geometry b (Some doc) = Inl (InvalidPointEntry e x)"
    show "list_ex (bad_point b) (find_all ''P'' doc)"
    proof (rule ccontr)
      assume "\<not> list_ex (bad_point b) (find_all ''P'' doc)"
      from good [OF this] raised show False by auto
    qed
  next
    assume "list_ex (bad_point b) (find_all ''P'' doc)"
    then obtain e where "find (bad_point b) (find_all ''P'' doc) = Some e"
      by (cases "find (bad_point b) (find_all ''P'' doc)") (auto simp: find_None_iff list_ex_iff)
    from bad [OF this] show "\<exists>e x. parse_tin_geometry b (Some doc) = Inl (InvalidPointEntry e x)"
      by blast
  qed
  from iff bad good show ?thesis by blast
qed

theorem invalid_point_entry_iff_bad_point_witness:
  "list_all (int_tokens_ok decimal)
     (find_all ''F'' [face_elem ''1 2 3'', point_elem ''1'' ''0.0 0.0 0.0'', point_elem_no_id ''1.0 0.0 0.0''])
   \<and> list_ex (bad_point decimal)
     (find_all ''P'' [face_elem ''1 2 3'', point_elem ''1'' ''0.0 0.0 0.0'', point_elem_no_id ''1.0 0.0 0.0''])
   \<and> parse_tin_geometry decimal
        (Some [face_elem ''1 2 3'', point_elem ''1'' ''0.0 0.0 0.0'', point_elem_no_id ''1.0 0.0 0.0''])
      = Inl (InvalidPointEntry (point_elem_no_id ''1.0 0.0 0.0'') (KeyError ''id''))"
  using invalid_point_entry_iff_bad_point [of decimal "[face_elem ''1 2 3'', point_elem ''1'' ''0.0 0.0 0.0'', point_elem_no_id ''1.0 0.0 0.0'']"]
  by (simp add: eval_defs)

text \<open>
  C5 as stated fails: the point \<^verbatim>\<open><P id="1">1.0 2.0</P>\<close> has two float tokens, not three,
  and the extraction succeeds, with no point stored.
\<close>

theorem two_float_point_is_skipped:
  "length (split_ws (get_text (point_elem ''1'' ''1.0 2.0''))) = 2
   \<and> list_all (\<lambda>t. py_float decimal t \<noteq> None) (split_ws (get_text (point_elem ''1'' ''1.0 2.0'')))
   \<and> parse_tin_geometry decimal (Some [point_elem ''1'' ''1.0 2.0'']) = Inr (Map.empty, [])"
  by (simp add: eval_defs)

text \<open>
  C10. When some \<^verbatim>\<open>F\<close> element of the document has a token that \<^verbatim>\<open>int\<close> rejects,
  \<open>parse_tin_geometry\<close> fails with the \<^verbatim>\<open>ValueError\<close> of \<^verbatim>\<open>int\<close> itself for the first such
  token in document order: an uncaught built-in exception, none of the errors the script
  raises under a message of its own.
\<close>

theorem non_integer_face_token_escapes:
  assumes "e \<in> set doc" "tag e = ''F''" "\<not> int_tokens_ok b e"
  shows "\<exists>t. find (\<lambda>t. py_int b t = None)
               (concat (map (\<lambda>e. split_ws (get_text e)) (find_all ''F'' doc))) = Some t
            \<and> py_int b t = None
            \<and> parse_tin_geometry b (Some doc) = Inl (Uncaught (ValueError t))"
proof -
  let ?ts = "concat (map (\<lambda>e. split_ws (get_text e)) (find_all ''F'' doc))"
  from assms obtain u where "u \<in> set (split_ws (get_text e))" "py_int b u = None"
    by (auto simp: int_tokens_ok_def list_all_iff)
  with assms(1,2) have "\<exists>t\<in>set ?ts. py_int b t = None"
    by (auto simp: find_all_def)
  then obtain t where f: "find (\<lambda>t. py_int b t = None) ?ts = Some t"
    by (cases "find (\<lambda>t. py_int b t = None) ?ts") (auto simp: find_None_iff)
  then have "py_int b t = None" by (auto simp: find_Some_iff)
  moreover have "parse_tin_geometry b (Some doc) = Inl (Uncaught (ValueError t))"
    by (simp add: parse_tin_geometry_def faces_loop_bad [OF f])
  ultimately show ?thesis using f by blast
qed

theorem non_integer_face_token_escapes_witness:
  "tag (face_elem ''1 x 3'') = ''F''
   \<and> \<not> int_tokens_ok decimal (face_elem ''1 x 3'')
   \<and> parse_tin_geometry decimal (Some [face_elem ''1 2 3'', face_elem ''1 x 3'', point_elem_no_id ''0.0''])
       = Inl (Uncaught (ValueError ''x''))"
  using non_integer_face_token_escapes [of "face_elem ''1 x 3''" "[face_elem ''1 2 3'', face_elem ''1 x 3'', point_elem_no_id ''0.0'']" decimal]
  by (simp add: eval_defs)

text \<open>
  C8. For an \<^verbatim>\<open>F\<close> element whose whitespace-separated tokens are all accepted by \<^verbatim>\<open>int\<close>,
  the loop appends the face exactly when there are three tokens and raises nothing
  otherwise; an element with another number of tokens can be deleted from the document
  without changing the extracted geometry or the centroid; and the face list of a
  successful extraction is the list of the three-token faces in document order.
\<close>

theorem face_kept_iff_three_tokens:
  assumes "tag e = ''F''" "int_tokens_ok b e"
  shows "faces_loop b (e # rest) acc =
           faces_loop b rest
             (if length (split_ws (get_text e)) = 3 then acc @ [face_ints b e] else acc)
       \<and> (length (split_ws (get_text e)) \<noteq> 3 \<longrightarrow>
            parse_tin_geometry b (Some (xs @ e # ys)) = parse_tin_geometry b (Some (xs @ ys))
            \<and> centroid_of_document b (Some (xs @ e # ys)) = centroid_of_document b (Some (xs @ ys)))
       \<and> (parse_tin_geometry b (Some (xs @ e # ys)) = Inr (pts, fs) \<longrightarrow>
            fs = filter (\<lambda>f. length f = 3) (map (face_ints b) (find_all ''F'' (xs @ e # ys))))"
proof -
  from assms(2) have conv: "map_exn (convert (py_int b)) (split_ws (get_text e)) = Inr (face_ints b e)"
    by (simp add: int_tokens_ok_def map_exn_convert_ok face_ints_def)
  have len: "length (face_ints b e) = length (split_ws (get_text e))"
    by (simp add: face_ints_def)
  have step: "faces_loop b (e # rest) acc =
           faces_loop b rest
             (if length (split_ws (get_text e)) = 3 then acc @ [face_ints b e] else acc)"
    for rest acc
    by (simp add: conv len)
  have drop: "parse_tin_geometry b (Some (xs @ e # ys)) = parse_tin_geometry b (Some (xs @ ys))"
    if "length (split_ws (get_text e)) \<noteq> 3"
  proof -
    have F: "find_all ''F'' (xs @ e # ys) = find_all ''F'' xs @ e # find_all ''F'' ys"
      and P: "find_all ''P'' (xs @ e # ys) = find_all ''P'' (xs @ ys)"
      and F': "find_all ''F'' (xs @ ys) = find_all ''F'' xs @ find_all ''F'' ys"
      using assms(1) by (simp_all add: find_all_def)
    have skip: "faces_loop b (e # find_all ''F'' ys) a = faces_loop b (find_all ''F'' ys) a" for a
      by (simp only: step that if_False)
    have "faces_loop b (find_all ''F'' (xs @ e # ys)) [] = faces_loop b (find_all ''F'' (xs @ ys)) []"
      by (simp only: F F' faces_loop_append skip)
    then show ?thesis
      by (simp add: parse_tin_geometry_def P split: sum.splits)
  qed
  have all: "fs = filter (\<lambda>f. length f = 3) (map (face_ints b) (find_all ''F'' (xs @ e # ys)))"
    if "parse_tin_geometry b (Some (xs @ e # ys)) = Inr (pts, fs)"
  proof -
    from that have fl: "faces_loop b (find_all ''F'' (xs @ e # ys)) [] = Inr fs"
      by (auto simp: parse_tin_geometry_def split: sum.splits)
    from faces_loop_ok [OF faces_loop_Inr_ok [OF fl], of "[]"] fl show ?thesis by simp
  qed
  from step drop all show ?thesis
    by (simp add: centroid_of_document_def)
qed

theorem face_kept_iff_three_tokens_witness:
  "tag (face_elem ''1 2 3 4'') = ''F''
   \<and> int_tokens_ok decimal (face_elem ''1 2 3 4'')
   \<and> length (split_ws (get_text (face_elem ''1 2 3 4''))) = 4
   \<and> parse_tin_geometry decimal
        (Some ([face_elem ''1 2 3''] @ face_elem ''1 2 3 4'' # [point_elem ''1'' ''0.0 0.0 0.0'']))
      = parse_tin_geometry decimal (Some ([face_elem ''1 2 3''] @ [point_elem ''1'' ''0.0 0.0 0.0'']))
   \<and> centroid_of_document decimal
        (Some ([face_elem ''1 2 3''] @ face_elem ''1 2 3 4'' # [point_elem ''1'' ''0.0 0.0 0.0'']))
      = centroid_of_document decimal (Some ([face_elem ''1 2 3''] @ [point_elem ''1'' ''0.0 0.0 0.0'']))
   \<and> map_sum id snd (parse_tin_geometry decimal
        (Some ([face_elem ''1 2 3''] @ face_elem ''1 2 3 4'' # [point_elem ''1'' ''0.0 0.0 0.0''])))
      = Inr [[1, 2, 3]]"
  using face_kept_iff_three_tokens [of "face_elem ''1 2 3 4''" decimal "[]" "[]" "[face_elem ''1 2 3'']"
      "[point_elem ''1'' ''0.0 0.0 0.0'']"]
  by (simp add: eval_defs)

lemma map_filter_append:
  "List.map_filter f (xs @ ys) = List.map_filter f xs @ List.map_filter f ys"
  by (simp add: List.map_filter_def)

lemma map_of_rev_last:
  assumes "list_all (\<lambda>p. fst p \<noteq> k) ys"
  shows "map_of (rev (xs @ (k, v) # ys)) k = Some v"
proof -
  from assms have "map_of (rev ys) k = None"
    by (auto simp: map_of_eq_None_iff list_all_iff)
  then show ?thesis by (simp add: map_add_def)
qed

text \<open>
  C9. In a document whose elements all convert, the extraction succeeds and the point
  mapping is the one in which, for each ID, the last \<^verbatim>\<open>P\<close> element in document order
  that stores a point under that ID wins: a point stored under ID \<open>k\<close> with no later
  point stored under \<open>k\<close> is the entry of \<open>k\<close>.
\<close>

theorem duplicate_point_id_last_wins:
  assumes "list_all (int_tokens_ok b) (find_all ''F'' doc)"
    and "\<not> list_ex (bad_point b) (find_all ''P'' doc)"
    and "find_all ''P'' doc = ps @ e # qs"
    and "stored_point b e = Some (k, v)"
    and "list_all (\<lambda>q. map_option fst (stored_point b q) \<noteq> Some k) qs"
  shows "\<exists>pts fs. parse_tin_geometry b (Some doc) = Inr (pts, fs)
            \<and> pts = map_of (rev (List.map_filter (stored_point b) (find_all ''P'' doc)))
            \<and> pts k = Some v"
proof -
  let ?mf = "List.map_filter (stored_point b)"
  have fl: "faces_loop b (find_all ''F'' doc) [] =
      Inr (filter (\<lambda>f. length f = 3) (map (face_ints b) (find_all ''F'' doc)))"
    using faces_loop_ok [OF assms(1), of "[]"] by simp
  have parse: "parse_tin_geometry b (Some doc) =
      Inr (map_of (rev (?mf (find_all ''P'' doc))),
           filter (\<lambda>f. length f = 3) (map (face_ints b) (find_all ''F'' doc)))"
    by (simp add: parse_tin_geometry_def fl points_loop_ok [OF assms(2)])
  have split: "?mf (find_all ''P'' doc) = ?mf ps @ (k, v) # ?mf qs"
    by (simp only: assms(3) map_filter_append List.map_filter_simps assms(4) option.simps)
  from assms(5) have "list_all (\<lambda>p. fst p \<noteq> k) (?mf qs)"
    by (auto simp: List.map_filter_def list_all_iff)
  then have "map_of (rev (?mf (find_all ''P'' doc))) k = Some v"
    unfolding split by (rule map_of_rev_last)
  with parse show ?thesis by simp
qed

theorem duplicate_point_id_last_wins_witness:
  "\<not> list_ex (bad_point decimal)
       (find_all ''P'' [point_elem ''7'' ''1.0 1.0 1.0'', face_elem ''7 7 7'', point_elem ''7'' ''2.0 2.5 3.0''])
   \<and> stored_point decimal (point_elem ''7'' ''2.0 2.5 3.0'') = Some (7, (2, 2.5, 3))
   \<and> (\<exists>pts fs. parse_tin_geometry decimal
          (Some [point_elem ''7'' ''1.0 1.0 1.0'', face_elem ''7 7 7'', point_elem ''7'' ''2.0 2.5 3.0''])
          = Inr (pts, fs) \<and> pts 7 = Some (2, 2.5, 3))"
  using duplicate_point_id_last_wins [of decimal "[point_elem ''7'' ''1.0 1.0 1.0'', face_elem ''7 7 7'', point_elem ''7'' ''2.0 2.5 3.0'']"
      "[point_elem ''7'' ''1.0 1.0 1.0'']" "point_elem ''7'' ''2.0 2.5 3.0''" "[]" 7 "(2, 2.5, 3)"]
  by (simp add: eval_defs)

section \<open>Properties of the coordinate scaler\<close>

lemma map_exn_all_Inr:
  "\<forall>x\<in>set xs. f x = Inr (g x) \<Longrightarrow> map_exn f xs = Inr (map g xs)"
  by (induction xs) auto

lemma map_exn_some_Inl:
  "\<exists>x\<in>set xs. \<exists>e. f x = Inl e \<Longrightarrow> \<exists>e x. map_exn f xs = Inl e \<and> x \<in> set xs \<and> f x = Inl e"
proof (induction xs)
  case Nil
  then show ?case by simp
next
  case (Cons a xs)
  show ?case
  proof (cases "f a")
    case (Inl e)
    then show ?thesis by auto
  next
    case (Inr y)
    with Cons.prems have "\<exists>x\<in>set xs. \<exists>e. f x = Inl e" by auto
    from Cons.IH [OF this] obtain e x where "map_exn f xs = Inl e" "x \<in> set xs" "f x = Inl e"
      by blast
    with Inr show ?thesis by auto
  qed
qed

lemma scale_face_ok: "face_text_ok b t \<Longrightarrow> scale_face b t = Inr (face_text b t)"
  by (simp add: face_text_ok_def scale_face_def map_exn_convert_ok face_text_def comp_def)

lemma scale_face_bad:
  assumes "\<not> face_text_ok b t"
  shows "\<exists>x. scale_face b t = Inl (ValueError x)"
proof -
  from assms obtain u where "find (\<lambda>x. py_int b x = None) (split_sep (CHR '' '') t) = Some u"
    by (cases "find (\<lambda>x. py_int b x = None) (split_sep (CHR '' '') t)")
      (auto simp: face_text_ok_def list_all_iff find_None_iff)
  then show ?thesis
    by (simp add: scale_face_def map_exn_convert_bad)
qed

lemma scale_point_ok: "point_text_ok b t \<Longrightarrow> scale_point b k t = Inr (point_text b k t)"
  by (simp add: point_text_ok_def scale_point_def map_exn_convert_ok point_text_def Let_def)

lemma scale_point_bad:
  assumes "\<not> point_text_ok b t"
  shows "\<exists>x. scale_point b k t = Inl x \<and> (x = IndexError \<or> (\<exists>u. x = ValueError u))"
proof (cases "find (\<lambda>x. py_float b x = None) (split_sep (CHR '' '') t)")
  case None
  then have ok: "list_all (\<lambda>x. py_float b x \<noteq> None) (split_sep (CHR '' '') t)"
    by (auto simp: find_None_iff list_all_iff)
  with assms have "length (split_sep (CHR '' '') t) < 3"
    by (simp add: point_text_ok_def)
  then show ?thesis
    by (simp add: scale_point_def map_exn_convert_ok [OF ok])
next
  case (Some u)
  then show ?thesis
    by (simp add: scale_point_def map_exn_convert_bad)
qed

lemma pass_ok:
  assumes "\<forall>e\<in>set doc. tag e = name \<longrightarrow> (\<forall>t\<in>set (contents e). f t = Inr (g t))"
  shows "map_exn (rewrite_element name f) doc =
           Inr (map (\<lambda>e. if tag e = name then e\<lparr>contents := map g (contents e)\<rparr> else e) doc)"
proof (rule map_exn_all_Inr, rule ballI)
  fix e assume "e \<in> set doc"
  with assms have "tag e = name \<longrightarrow> (\<forall>t\<in>set (contents e). f t = Inr (g t))" by blast
  then have "tag e = name \<longrightarrow> map_exn f (contents e) = Inr (map g (contents e))"
    by (simp add: map_exn_all_Inr)
  then show "rewrite_element name f e =
      Inr (if tag e = name then e\<lparr>contents := map g (contents e)\<rparr> else e)"
    by (auto simp: rewrite_element_def)
qed

lemma map_exn_Inl_source:
  "map_exn f xs = Inl x \<Longrightarrow> \<exists>t\<in>set xs. f t = Inl x"
  by (induction xs) (auto split: sum.splits)

lemma pass_bad:
  assumes "\<exists>e\<in>set doc. tag e = name \<and> (\<exists>t\<in>set (contents e). \<exists>x. f t = Inl x)"
  shows "\<exists>x t. map_exn (rewrite_element name f) doc = Inl x \<and> f t = Inl x"
proof -
  from assms obtain e where e: "e \<in> set doc" "tag e = name"
    and "\<exists>t\<in>set (contents e). \<exists>x. f t = Inl x" by blast
  from map_exn_some_Inl [OF this(3)] obtain x t where "map_exn f (contents e) = Inl x" "f t = Inl x"
    by blast
  with e have "\<exists>x. rewrite_element name f e = Inl x"
    by (simp add: rewrite_element_def)
  with e(1) have "\<exists>e\<in>set doc. \<exists>x. rewrite_element name f e = Inl x" by blast
  from map_exn_some_Inl [OF this] obtain x e' where
    m: "map_exn (rewrite_element name f) doc = Inl x" and "rewrite_element name f e' = Inl x"
    by blast
  then have "map_exn f (contents e') = Inl x"
    by (auto simp: rewrite_element_def split: if_splits sum.splits)
  from map_exn_Inl_source [OF this] m show ?thesis by blast
qed

lemma faces_rewritten_tag: "tag (faces_rewritten b e) = tag e"
  by (simp add: faces_rewritten_def)

lemma faces_rewritten_P: "tag e = ''P'' \<Longrightarrow> faces_rewritten b e = e"
  by (simp add: faces_rewritten_def)

lemma rewritten_two_passes:
  "rewritten b k e =
     (if tag (faces_rewritten b e) = ''P''
      then (faces_rewritten b e)\<lparr>contents := map (point_text b k) (contents (faces_rewritten b e))\<rparr>
      else faces_rewritten b e)"
  by (simp add: rewritten_def faces_rewritten_def)

lemma faces_pass_ok:
  assumes "\<forall>e\<in>set doc. tag e = ''F'' \<longrightarrow> list_all (face_text_ok b) (contents e)"
  shows "map_exn (rewrite_element ''F'' (scale_face b)) doc = Inr (map (faces_rewritten b) doc)"
proof -
  have "\<forall>e\<in>set doc. tag e = ''F'' \<longrightarrow> (\<forall>t\<in>set (contents e). scale_face b t = Inr (face_text b t))"
  proof (intro ballI impI)
    fix e t assume "e \<in> set doc" "tag e = ''F''" "t \<in> set (contents e)"
    with assms have "face_text_ok b t" by (auto simp: list_all_iff)
    then show "scale_face b t = Inr (face_text b t)" by (rule scale_face_ok)
  qed
  from pass_ok [OF this] show ?thesis
    by (simp add: faces_rewritten_def [abs_def])
qed

lemma faces_pass_bad:
  assumes "e \<in> set doc" "tag e = ''F''" "\<not> list_all (face_text_ok b) (contents e)"
  shows "\<exists>u. map_exn (rewrite_element ''F'' (scale_face b)) doc = Inl (ValueError u)"
proof -
  from assms(3) obtain t where t: "t \<in> set (contents e)" "\<not> face_text_ok b t"
    by (auto simp: list_all_iff)
  from scale_face_bad [OF t(2)] t(1) assms(1,2)
  have "\<exists>e\<in>set doc. tag e = ''F'' \<and> (\<exists>t\<in>set (contents e). \<exists>x. scale_face b t = Inl x)"
    by blast
  from pass_bad [OF this] obtain x t' where
    m: "map_exn (rewrite_element ''F'' (scale_face b)) doc = Inl x" and x: "scale_face b t' = Inl x"
    by blast
  have "\<exists>u. x = ValueError u"
  proof (cases "face_text_ok b t'")
    case True
    from scale_face_ok [OF True] x show ?thesis by simp
  next
    case False
    from scale_face_bad [OF False] x show ?thesis by auto
  qed
  with m show ?thesis by blast
qed

lemma points_pass_ok:
  assumes "\<forall>e\<in>set doc. tag e = ''P'' \<longrightarrow> list_all (point_text_ok b) (contents e)"
  shows "map_exn (rewrite_element ''P'' (scale_point b k)) (map (faces_rewritten b) doc) =
           Inr (map (rewritten b k) doc)"
proof -
  have "\<forall>e\<in>set (map (faces_rewritten b) doc). tag e = ''P'' \<longrightarrow>
          (\<forall>t\<in>set (contents e). scale_point b k t = Inr (point_text b k t))"
  proof (intro ballI impI)
    fix e' t assume e': "e' \<in> set (map (faces_rewritten b) doc)" "tag e' = ''P''"
      and t: "t \<in> set (contents e')"
    from e'(1) obtain e where e: "e \<in> set doc" "e' = faces_rewritten b e" by auto
    with e'(2) have P: "tag e = ''P''" by (simp add: faces_rewritten_tag)
    with e(2) have "e' = e" by (simp add: faces_rewritten_P)
    with assms e(1) P t have "point_text_ok b t" by (auto simp: list_all_iff)
    then show "scale_point b k t = Inr (point_text b k t)" by (rule scale_point_ok)
  qed
  from pass_ok [OF this] show ?thesis
    by (simp add: rewritten_two_passes [abs_def] comp_def)
qed

lemma points_pass_bad:
  assumes "e \<in> set doc" "tag e = ''P''" "\<not> list_all (point_text_ok b) (contents e)"
  shows "\<exists>x. map_exn (rewrite_element ''P'' (scale_point b k)) (map (faces_rewritten b) doc) = Inl x
             \<and> (x = IndexError \<or> (\<exists>u. x = ValueError u))"
proof -
  from assms(3) obtain t where t: "t \<in> set (contents e)" "\<not> point_text_ok b t"
    by (auto simp: list_all_iff)
  from scale_point_bad [OF t(2), of k] obtain y where y: "scale_point b k t = Inl y"
    by blast
  from assms(1) have "faces_rewritten b e \<in> set (map (faces_rewritten b) doc)"
    by (simp only: set_map) (rule imageI)
  then have "e \<in> set (map (faces_rewritten b) doc)"
    by (simp only: faces_rewritten_P [OF assms(2)])
  with assms(2) t(1) y
  have "\<exists>e\<in>set (map (faces_rewritten b) doc). tag e = ''P'' \<and>
          (\<exists>t\<in>set (contents e). \<exists>x. scale_point b k t = Inl x)"
    by blast
  from pass_bad [OF this] obtain x t' where
    m: "map_exn (rewrite_element ''P'' (scale_point b k)) (map (faces_rewritten b) doc) = Inl x"
    and x: "scale_point b k t' = Inl x"
    by blast
  have "x = IndexError \<or> (\<exists>u. x = ValueError u)"
  proof (cases "point_text_ok b t'")
    case True
    from scale_point_ok [OF True, of k] x show ?thesis by simp
  next
    case False
    from scale_point_bad [OF False, of k] x show ?thesis by auto
  qed
  with m show ?thesis by blast
qed

lemma element_ok_F: "element_ok b e \<Longrightarrow> tag e = ''F'' \<Longrightarrow> list_all (face_text_ok b) (contents e)"
  by (simp add: element_ok_def)

lemma element_ok_P: "element_ok b e \<Longrightarrow> tag e = ''P'' \<Longrightarrow> list_all (point_text_ok b) (contents e)"
  by (simp add: element_ok_def)

lemma not_element_ok:
  "\<not> element_ok b e \<Longrightarrow>
     (tag e = ''F'' \<and> \<not> list_all (face_text_ok b) (contents e))
   \<or> (tag e = ''P'' \<and> \<not> list_all (point_text_ok b) (contents e))"
  by (simp add: element_ok_def split: if_splits)

text \<open>
  C6, as the code has it. \<open>main\<close> rewrites every text child of every \<^verbatim>\<open>F\<close> and \<^verbatim>\<open>P\<close>
  element and returns the rewritten tree when, cut at each single space character,
  every piece of every text child of an \<^verbatim>\<open>F\<close> element is accepted by \<^verbatim>\<open>int\<close>, and every
  text child of a \<^verbatim>\<open>P\<close> element has at least three pieces, all accepted by \<^verbatim>\<open>float\<close>.
  Otherwise it fails with the uncaught \<^verbatim>\<open>ValueError\<close> of the conversion or the
  \<^verbatim>\<open>IndexError\<close> of the missing coordinate; the script raises no error of its own.
  An element without text children is left as it is.
\<close>

theorem scaler_fails_iff_piece_rejected:
  "(list_all (element_ok b) doc \<longrightarrow> main b k doc = Inr (map (rewritten b k) doc))
   \<and> (\<not> list_all (element_ok b) doc \<longrightarrow>
        (\<exists>x. main b k doc = Inl (Uncaught x) \<and> (x = IndexError \<or> (\<exists>u. x = ValueError u))))"
proof (intro conjI impI)
  assume ok: "list_all (element_ok b) doc"
  have F: "\<forall>e\<in>set doc. tag e = ''F'' \<longrightarrow> list_all (face_text_ok b) (contents e)"
  proof (intro ballI impI)
    fix e assume "e \<in> set doc" and t: "tag e = ''F''"
    with ok have "element_ok b e" by (simp add: list_all_iff)
    then show "list_all (face_text_ok b) (contents e)" using t by (rule element_ok_F)
  qed
  have P: "\<forall>e\<in>set doc. tag e = ''P'' \<longrightarrow> list_all (point_text_ok b) (contents e)"
  proof (intro ballI impI)
    fix e assume "e \<in> set doc" and t: "tag e = ''P''"
    with ok have "element_ok b e" by (simp add: list_all_iff)
    then show "list_all (point_text_ok b) (contents e)" using t by (rule element_ok_P)
  qed
  show "main b k doc = Inr (map (rewritten b k) doc)"
    by (simp add: main_def faces_pass_ok [OF F] points_pass_ok [OF P])
next
  assume "\<not> list_all (element_ok b) doc"
  then obtain e where e: "e \<in> set doc" "\<not> element_ok b e"
    by (auto simp: list_all_iff)
  show "\<exists>x. main b k doc = Inl (Uncaught x) \<and> (x = IndexError \<or> (\<exists>u. x = ValueError u))"
  proof (cases "\<forall>e\<in>set doc. tag e = ''F'' \<longrightarrow> list_all (face_text_ok b) (contents e)")
    case True
    with e not_element_ok [OF e(2)] have "tag e = ''P''" "\<not> list_all (point_text_ok b) (contents e)"
      by auto
    from points_pass_bad [OF e(1) this, of k] obtain x where
      "map_exn (rewrite_element ''P'' (scale_point b k)) (map (faces_rewritten b) doc) = Inl x"
      "x = IndexError \<or> (\<exists>u. x = ValueError u)"
      by blast
    then show ?thesis
      by (simp add: main_def faces_pass_ok [OF True])
  next
    case False
    then obtain f where "f \<in> set doc" "tag f = ''F''" "\<not> list_all (face_text_ok b) (contents f)"
      by blast
    from faces_pass_bad [OF this] obtain u where
      "map_exn (rewrite_element ''F'' (scale_face b)) doc = Inl (ValueError u)"
      by blast
    then show ?thesis
      by (simp add: main_def)
  qed
qed

theorem scaler_fails_iff_piece_rejected_witness:
  "list_all (element_ok decimal)
     [face_elem ''3 1 2'', point_elem ''1'' ''1.5 -2.0 3.14159'',
      \<lparr>tag = ''Surface'', attrs = [], contents = []\<rparr>]
   \<and> main decimal 2
        [face_elem ''3 1 2'', point_elem ''1'' ''1.5 -2.0 3.14159'',
         \<lparr>tag = ''Surface'', attrs = [], contents = []\<rparr>]
      = Inr [face_elem ''3 1 2'', point_elem ''1'' ''3.000000000000 -4.000000000000 3.1416'',
             \<lparr>tag = ''Surface'', attrs = [], contents = []\<rparr>]
   \<and> \<not> list_all (element_ok decimal) [point_elem ''1'' ''1.0 2.0'']
   \<and> main decimal 2 [point_elem ''1'' ''1.0 2.0''] = Inl (Uncaught IndexError)"
  using scaler_fails_iff_piece_rejected [of decimal "[face_elem ''3 1 2'', point_elem ''1'' ''1.5 -2.0 3.14159'',
         \<lparr>tag = ''Surface'', attrs = [], contents = []\<rparr>]" 2]
    scaler_fails_iff_piece_rejected [of decimal "[point_elem ''1'' ''1.0 2.0'']" 2]
  by (simp add: eval_defs scaler_eval format_eval)

text \<open>
  C6 as stated fails in both directions. The tokens of \<^verbatim>\<open><F>1  2 3</F>\<close> (two spaces)
  between whitespace are all integers, yet the scaler fails on the empty piece between
  the two spaces; and the empty element \<^verbatim>\<open><P/>\<close> does not split into three tokens, yet
  the scaler succeeds and leaves it as it is.
\<close>

theorem double_space_face_fails:
  "list_all (\<lambda>t. py_int decimal t \<noteq> None) (split_ws (get_text (face_elem ''1  2 3'')))
   \<and> main decimal 2 [face_elem ''1  2 3''] = Inl (Uncaught (ValueError []))
   \<and> length (split_ws (get_text \<lparr>tag = ''P'', attrs = [], contents = []\<rparr>)) < 3
   \<and> main decimal 2 [\<lparr>tag = ''P'', attrs = [], contents = []\<rparr>]
       = Inr [\<lparr>tag = ''P'', attrs = [], contents = []\<rparr>]"
  by (simp add: eval_defs scaler_eval)




























end
